theory Spec2Isabelle
  imports Complex_Main "HOL-Library.Word"
begin

section \<open>Text and bytes\<close>

text \<open>
  Python \<open>str\<close> values are modelled as \<open>string\<close>; a character whose code is 128 or more
  stands for a character outside ASCII. Python \<open>bytes\<close> values are lists of 8-bit words.
\<close>

type_synonym byte = "8 word"

definition CR :: char where
  "CR = CHR 0x0D"

definition LF :: char where
  "LF = CHR 0x0A"

definition SP :: char where
  "SP = CHR 0x20"

definition is_ascii :: "char \<Rightarrow> bool" where
  "is_ascii c = ((of_char c :: nat) < 128)"

definition byte_of_char :: "char \<Rightarrow> byte" where
  "byte_of_char c = of_nat (of_char c)"

definition char_of_byte :: "byte \<Rightarrow> char" where
  "char_of_byte b = char_of (unat b)"

text \<open>The exceptions the two programs can meet: a failure of the serial port (with its
  message), the two codec errors, and the two errors of \<open>time.sleep\<close>: \<open>ValueError\<close> on a
  negative duration and \<open>OverflowError\<close> on a duration too large for the clock.\<close>

datatype exn =
    SerialException string
  | UnicodeEncodeError
  | UnicodeDecodeError
  | ValueError
  | OverflowError

text \<open>\<open>s.encode("ascii")\<close>: raises on the first character outside ASCII.\<close>

definition encode_ascii :: "string \<Rightarrow> exn + byte list" where
  "encode_ascii s = (if list_all is_ascii s then Inr (map byte_of_char s) else Inl UnicodeEncodeError)"

text \<open>\<open>b.decode("ascii")\<close>: raises on the first byte that is 128 or more.\<close>

definition decode_ascii :: "byte list \<Rightarrow> exn + string" where
  "decode_ascii bs = (if list_all (\<lambda>b. b < 128) bs then Inr (map char_of_byte bs) else Inl UnicodeDecodeError)"

text \<open>\<open>b.decode("ascii", errors="ignore")\<close>: drops every byte that is 128 or more.\<close>

definition decode_ascii_ignore :: "byte list \<Rightarrow> string" where
  "decode_ascii_ignore bs = map char_of_byte (filter (\<lambda>b. b < 128) bs)"

text \<open>\<open>str.isspace\<close> on one character, for the characters with code below 256.\<close>

definition py_isspace :: "char \<Rightarrow> bool" where
  "py_isspace c = (c \<in> set [CHR 0x09, CHR 0x0A, CHR 0x0B, CHR 0x0C, CHR 0x0D,
                             CHR 0x1C, CHR 0x1D, CHR 0x1E, CHR 0x1F, CHR 0x20, CHR 0x85, CHR 0xA0])"

text \<open>\<open>s.strip()\<close>\<close>

definition py_strip :: "string \<Rightarrow> string" where
  "py_strip s = rev (dropWhile py_isspace (rev (dropWhile py_isspace s)))"

text \<open>\<open>s.rstrip(chars)\<close>\<close>

definition py_rstrip :: "string \<Rightarrow> string \<Rightarrow> string" where
  "py_rstrip s chars = rev (dropWhile (\<lambda>c. c \<in> set chars) (rev s))"

text \<open>\<open>s.startswith(p)\<close>\<close>

definition py_startswith :: "string \<Rightarrow> string \<Rightarrow> bool" where
  "py_startswith s p = (take (length p) s = p)"

text \<open>\<open>s.split(" ", 1)\<close>: one part when \<open>s\<close> has no space, otherwise the text before the first
  space and everything after it.\<close>

definition py_split1 :: "string \<Rightarrow> string list" where
  "py_split1 s =
     (if SP \<in> set s then [takeWhile (\<lambda>c. c \<noteq> SP) s, tl (dropWhile (\<lambda>c. c \<noteq> SP) s)]
      else [s])"

section \<open>The simulated chiller (chiller.py)\<close>

text \<open>The port of the chiller is taken to work: its reads and writes return. What the chiller
  prints is left out.\<close>

definition RESPONSES :: "string \<rightharpoonup> string" where
  "RESPONSES = map_of
     [(''VERSION'', ''JULABO_V3.0''),
      (''status'', ''03 REMOTE START''),
      (''in_mode_05'', ''1''),
      (''in_mode_04'', ''0''),
      (''in_sp_06'', ''14.55''),
      (''in_sp_00'', ''2.00''),
      (''in_pv_00'', ''14.55''),
      (''in_pv_02'', ''---.--''),
      (''in_pv_01'', ''-100'')]"

text \<open>The classification of one received, stripped, non-empty line: the body of \<open>if data:\<close>
  up to the assignment of \<open>response\<close>.\<close>

definition response_for :: "string \<Rightarrow> string" where
  "response_for data =
     (if py_startswith data ''out_sp_00'' then
        (let parts = py_split1 data in
         if length parts > 1 then ''Setpoint updated to '' @ parts ! 1
         else ''Missing parameter for out_sp_00'')
      else if py_startswith data ''out_mode_05'' then
        (let parts = py_split1 data in
         if length parts > 1 then (if parts ! 1 = ''1'' then ''Chiller turned on'' else ''Chiller turned off'')
         else ''Missing parameter for out_mode_05'')
      else (case RESPONSES data of Some r \<Rightarrow> r | None \<Rightarrow> ''OK''))"

text \<open>\<open>ser.read_until(b'\r')\<close> on the bytes still to come: the bytes up to and including the
  first carriage return, or, when none is left, all remaining bytes (the read times out).
  The result is the bytes read and the bytes left in the stream.\<close>

fun read_until_CR :: "byte list \<Rightarrow> byte list \<times> byte list" where
  "read_until_CR [] = ([], [])"
| "read_until_CR (b # bs) =
     (if b = byte_of_char CR then ([b], bs)
      else (case read_until_CR bs of (line, rest) \<Rightarrow> (b # line, rest)))"

datatype chiller_action = ChSleep | ChWrite "byte list"

text \<open>One pass of the body of \<open>while True\<close> after the read: what the chiller does with the
  bytes it read, or the exception that ends the process.\<close>

definition handle_read :: "byte list \<Rightarrow> exn + chiller_action list" where
  "handle_read raw =
     (case decode_ascii raw of
        Inl e \<Rightarrow> Inl e
      | Inr text \<Rightarrow>
          (let data = py_strip text in
           if data \<noteq> [] then
             (case encode_ascii (response_for data @ [CR, LF]) of
                Inl e \<Rightarrow> Inl e
              | Inr full_response \<Rightarrow> Inr [ChSleep, ChWrite full_response])
           else Inr [ChSleep]))"

text \<open>\<open>simulate_chiller\<close> loops forever; \<open>simulate_chiller n inp\<close> is its first \<open>n\<close> passes on the
  inbound bytes \<open>inp\<close>: the actions performed, and the exception if one ended the process.\<close>

fun simulate_chiller :: "nat \<Rightarrow> byte list \<Rightarrow> chiller_action list \<times> exn option" where
  "simulate_chiller 0 inp = ([], None)"
| "simulate_chiller (Suc n) inp =
     (case read_until_CR inp of (raw, rest) \<Rightarrow>
        (case handle_read raw of
           Inl e \<Rightarrow> ([], Some e)
         | Inr acts \<Rightarrow>
             (case simulate_chiller n rest of (later, r) \<Rightarrow> (acts @ later, r))))"

subsection \<open>Notions used to state the chiller's properties\<close>

text \<open>The remainder of a line after its first space, if the line has a space.\<close>

definition remainder :: "string \<Rightarrow> string option" where
  "remainder s = (if SP \<in> set s then Some (tl (dropWhile (\<lambda>c. c \<noteq> SP) s)) else None)"

text \<open>The classification of a line as the specification words it: the two prefix matchers
  first, in this order, then the exact lookup in the table, then \<open>OK\<close>.\<close>

definition classified :: "string \<Rightarrow> string" where
  "classified line =
     (if py_startswith line ''out_sp_00'' then
        (case remainder line of
           Some r \<Rightarrow> ''Setpoint updated to '' @ r
         | None \<Rightarrow> ''Missing parameter for out_sp_00'')
      else if py_startswith line ''out_mode_05'' then
        (case remainder line of
           Some r \<Rightarrow> (if r = ''1'' then ''Chiller turned on'' else ''Chiller turned off'')
         | None \<Rightarrow> ''Missing parameter for out_mode_05'')
      else (case RESPONSES line of Some r \<Rightarrow> r | None \<Rightarrow> ''OK''))"

text \<open>The inbound bytes made of the commands \<open>cs\<close>, each followed by a carriage return, and
  the same with a line feed after each carriage return.\<close>

definition cr_stream :: "byte list list \<Rightarrow> byte list" where
  "cr_stream cs = concat (map (\<lambda>c. c @ [byte_of_char CR]) cs)"

definition crlf_stream :: "byte list list \<Rightarrow> byte list" where
  "crlf_stream cs = concat (map (\<lambda>c. c @ [byte_of_char CR, byte_of_char LF]) cs)"

text \<open>\<open>lf_after_cr x y\<close>: the bytes \<open>x\<close> are the bytes \<open>y\<close> with a line feed added after some
  of the carriage returns.\<close>

inductive lf_after_cr :: "byte list \<Rightarrow> byte list \<Rightarrow> bool" where
  lf_nil: "lf_after_cr [] []"
| lf_keep: "lf_after_cr x y \<Longrightarrow> lf_after_cr (b # x) (b # y)"
| lf_extra: "lf_after_cr x y \<Longrightarrow>
     lf_after_cr (byte_of_char CR # byte_of_char LF # x) (byte_of_char CR # y)"

section \<open>The serial worker (main.py)\<close>

text \<open>The fields of \<open>SerialWorker\<close> that \<open>run\<close> reads after the port is open. The port
  settings only reach the constructor of the port. Durations are Python floats, modelled as
  reals: not-a-number and the infinities are left out.\<close>

record serial_worker =
  commands :: "(string \<times> string option) list"
  append_newline :: bool
  tx_delay :: real
  command_delay :: real

text \<open>
  What lies outside the worker's thread. \<open>open_exc\<close> is the exception raised by
  \<open>serial.Serial(...)\<close>, if any. \<open>is_running_at i\<close> is the value of \<open>_is_running\<close> when pass
  \<open>i\<close> of the loop reads it (another thread may have called \<open>stop\<close> by then).
  \<open>write_exc i j\<close> and \<open>flush_exc i j\<close> are the exceptions raised by call \<open>j\<close> of \<open>ser.write\<close>
  and of \<open>ser.flush\<close> in pass \<open>i\<close>, if any. \<open>readline_result i\<close> is what \<open>ser.readline()\<close>
  does in pass \<open>i\<close>: it raises, or returns bytes (none on a timeout). \<open>sleep_exc d\<close> is the
  exception raised by \<open>time.sleep(d)\<close>, if any: the theorems below ask where they need it that
  the sleep returns, and do not depend on the bounds of the clock.
\<close>

record world =
  open_exc :: "exn option"
  is_running_at :: "nat \<Rightarrow> bool"
  write_exc :: "nat \<Rightarrow> nat \<Rightarrow> exn option"
  flush_exc :: "nat \<Rightarrow> nat \<Rightarrow> exn option"
  readline_result :: "nat \<Rightarrow> exn + byte list"
  sleep_exc :: "real \<Rightarrow> exn option"

text \<open>What the worker does, in the order it does it: calls on the port and on the clock that
  returned, and signals emitted. \<open>Update_error e\<close> is the emission of \<open>f"Error: {e}"\<close>.\<close>

datatype action =
    SerOpen
  | SerWrite "byte list"
  | SerFlush
  | Sleep real
  | SerReadline "byte list"
  | SerClose
  | Update_signal string
  | Update_error exn
  | Finished

text \<open>Lines 51 to 58 of \<open>run\<close>: the text of the command as sent.\<close>

definition full_command_of :: "bool \<Rightarrow> string \<Rightarrow> string option \<Rightarrow> string" where
  "full_command_of nl cmd param =
     (let base_command = (if param \<noteq> None \<and> param \<noteq> Some [] then cmd @ [SP] @ the param else cmd)
      in if nl then base_command @ [CR, LF] else base_command @ [CR])"

text \<open>The loop \<open>for ch in full_command\<close> of the branch \<open>tx_delay > 0\<close>, from character \<open>j\<close> on.\<close>

fun write_chars :: "world \<Rightarrow> nat \<Rightarrow> real \<Rightarrow> nat \<Rightarrow> string \<Rightarrow> action list \<times> exn option" where
  "write_chars env i d j [] = ([], None)"
| "write_chars env i d j (ch # rest) =
     (case encode_ascii [ch] of
        Inl e \<Rightarrow> ([], Some e)
      | Inr b \<Rightarrow>
          (case write_exc env i j of
             Some e \<Rightarrow> ([], Some e)
           | None \<Rightarrow>
               (case flush_exc env i j of
                  Some e \<Rightarrow> ([SerWrite b], Some e)
                | None \<Rightarrow>
                    (case sleep_exc env d of
                       Some e \<Rightarrow> ([SerWrite b, SerFlush], Some e)
                     | None \<Rightarrow>
                         (case write_chars env i d (Suc j) rest of
                            (later, r) \<Rightarrow> (SerWrite b # SerFlush # Sleep d # later, r))))))"

text \<open>Lines 60 to 67 of \<open>run\<close>.\<close>

definition transmit :: "serial_worker \<Rightarrow> world \<Rightarrow> nat \<Rightarrow> string \<Rightarrow> action list \<times> exn option" where
  "transmit w env i full_command =
     (if tx_delay w > 0 then write_chars env i (tx_delay w) 0 full_command
      else
        (case encode_ascii full_command of
           Inl e \<Rightarrow> ([], Some e)
         | Inr bs \<Rightarrow>
             (case write_exc env i 0 of
                Some e \<Rightarrow> ([], Some e)
              | None \<Rightarrow>
                  (case flush_exc env i 0 of
                     Some e \<Rightarrow> ([SerWrite bs], Some e)
                   | None \<Rightarrow> ([SerWrite bs, SerFlush], None)))))"

text \<open>Lines 70 to 73 of \<open>run\<close>.\<close>

definition response_text :: "byte list \<Rightarrow> string" where
  "response_text raw_response =
     (if raw_response = [] then ''No response''
      else py_rstrip (decode_ascii_ignore raw_response) [CR, LF])"

text \<open>The \<open>for\<close> loop of \<open>run\<close> from pass \<open>i\<close> on, over the commands still to send: the actions
  performed, and the exception that left the loop, if any.\<close>

fun run_loop :: "serial_worker \<Rightarrow> world \<Rightarrow> nat \<Rightarrow> (string \<times> string option) list
                  \<Rightarrow> action list \<times> exn option" where
  "run_loop w env i [] = ([], None)"
| "run_loop w env i ((cmd, param) # rest) =
     (if \<not> is_running_at env i then ([], None)
      else
        (let full_command = full_command_of (append_newline w) cmd param;
             sending = Update_signal (''Sending: '' @ py_strip full_command)
         in case transmit w env i full_command of
              (tx, Some e) \<Rightarrow> (sending # tx, Some e)
            | (tx, None) \<Rightarrow>
                (case sleep_exc env (command_delay w) of
                   Some e \<Rightarrow> (sending # tx, Some e)
                 | None \<Rightarrow>
                     (case readline_result env i of
                        Inl e \<Rightarrow> (sending # tx @ [Sleep (command_delay w)], Some e)
                      | Inr raw_response \<Rightarrow>
                          (case run_loop w env (Suc i) rest of
                             (later, r) \<Rightarrow>
                               (sending # tx @
                                [Sleep (command_delay w), SerReadline raw_response,
                                 Update_signal (''Received: '' @ response_text raw_response @ [LF])] @
                                later, r))))))"

text \<open>\<open>SerialWorker.run\<close>.\<close>

definition run :: "serial_worker \<Rightarrow> world \<Rightarrow> action list" where
  "run w env =
     (case open_exc env of
        Some e \<Rightarrow> [Update_error e, Finished]
      | None \<Rightarrow>
          (case run_loop w env 0 (commands w) of
             (acts, None) \<Rightarrow> SerOpen # acts @ [SerClose, Finished]
           | (acts, Some e) \<Rightarrow> SerOpen # acts @ [Update_error e, Finished]))"

subsection \<open>Notions used to state the worker's properties\<close>

text \<open>The calls on the port that send a frame when nothing fails: one write and one flush,
  or, with a positive \<open>tx_delay\<close>, a write, a flush and a pause for each character.\<close>

definition wire_actions :: "serial_worker \<Rightarrow> string \<Rightarrow> action list" where
  "wire_actions w frame =
     (if tx_delay w > 0
      then concat (map (\<lambda>ch. [SerWrite [byte_of_char ch], SerFlush, Sleep (tx_delay w)]) frame)
      else [SerWrite (map byte_of_char frame), SerFlush])"

text \<open>The two signals of one exchange, and the whole exchange of a command whose read
  returned the bytes \<open>raw\<close>: the signal before sending, the frame on the port, the pause, the
  read and the signal after it.\<close>

definition sending :: "serial_worker \<Rightarrow> string \<times> string option \<Rightarrow> action" where
  "sending w c = Update_signal (''Sending: '' @ py_strip (full_command_of (append_newline w) (fst c) (snd c)))"

definition received :: "byte list \<Rightarrow> action" where
  "received raw = Update_signal (''Received: '' @ response_text raw @ [LF])"

definition exchange :: "serial_worker \<Rightarrow> string \<times> string option \<Rightarrow> byte list \<Rightarrow> action list" where
  "exchange w c raw =
     sending w c # wire_actions w (full_command_of (append_newline w) (fst c) (snd c)) @
     [Sleep (command_delay w), SerReadline raw, received raw]"

text \<open>The bytes written to the port by a sequence of actions, in order.\<close>

fun written :: "action list \<Rightarrow> byte list" where
  "written [] = []"
| "written (SerWrite bs # acts) = bs @ written acts"
| "written (a # acts) = written acts"

text \<open>The signals emitted by a sequence of actions, in order.\<close>

fun is_signal :: "action \<Rightarrow> bool" where
  "is_signal (Update_signal s) = True"
| "is_signal (Update_error e) = True"
| "is_signal Finished = True"
| "is_signal a = False"

definition signals :: "action list \<Rightarrow> action list" where
  "signals acts = filter is_signal acts"

text \<open>Pass \<open>i\<close> of the loop meets no failure on the command \<open>c\<close>: the frame is ASCII text, no
  write and no flush of the pass raises, \<open>time.sleep\<close> returns on \<open>command_delay\<close> and, when
  \<open>tx_delay\<close> is positive, on \<open>tx_delay\<close>, and the read returns the bytes \<open>raw\<close>.\<close>

definition exchange_ok :: "serial_worker \<Rightarrow> world \<Rightarrow> nat \<Rightarrow> string \<times> string option \<Rightarrow> byte list \<Rightarrow> bool" where
  "exchange_ok w env i c raw \<longleftrightarrow>
     list_all is_ascii (full_command_of (append_newline w) (fst c) (snd c)) \<and>
     (\<forall>j. write_exc env i j = None) \<and> (\<forall>j. flush_exc env i j = None) \<and>
     (0 < tx_delay w \<longrightarrow> sleep_exc env (tx_delay w) = None) \<and>
     sleep_exc env (command_delay w) = None \<and>
     readline_result env i = Inr raw"

text \<open>The frame of a command as the specification words it.\<close>

definition frame_text :: "bool \<Rightarrow> string \<Rightarrow> string option \<Rightarrow> string" where
  "frame_text nl name param =
     (case param of
        Some p \<Rightarrow> (if p \<noteq> [] then name @ '' '' @ p else name)
      | None \<Rightarrow> name) @
     (if nl then [CR, LF] else [CR])"

text \<open>\<open>time.sleep\<close> as CPython checks its argument: the duration in nanoseconds, rounded away
  from zero, must fit a signed 64-bit integer, and then must not be negative. The rounding of
  floats next to the two bounds is left out, and so is the lower bound that some platforms
  have; the examples below call it far from the bounds only.\<close>

definition time_sleep :: "real \<Rightarrow> exn option" where
  "time_sleep d =
     (if d * 10 ^ 9 < - (2 ^ 63) \<or> 2 ^ 63 - 1 < d * 10 ^ 9 then Some OverflowError
      else if d < 0 then Some ValueError
      else None)"

text \<open>Example surroundings: a port on which every call succeeds and every read times out
  while nobody calls \<open>stop\<close>; the same with every write failing, with every read failing, with
  the second write of a pass failing, and with \<open>stop\<close> called during pass \<open>k - 1\<close>. \<open>worker\<close> builds
  a worker from its commands, the newline flag and the two delays.\<close>

definition calm_world :: world where
  "calm_world = \<lparr>open_exc = None, is_running_at = (\<lambda>i. True), write_exc = (\<lambda>i j. None),
                  flush_exc = (\<lambda>i j. None), readline_result = (\<lambda>i. Inr []),
                  sleep_exc = time_sleep\<rparr>"

definition broken_write_world :: world where
  "broken_write_world = calm_world\<lparr>write_exc := (\<lambda>i j. Some (SerialException ''write failed''))\<rparr>"

definition broken_read_world :: world where
  "broken_read_world = calm_world\<lparr>readline_result := (\<lambda>i. Inl (SerialException ''read failed''))\<rparr>"

definition second_write_fails_world :: world where
  "second_write_fails_world =
     calm_world\<lparr>write_exc := (\<lambda>i j. if j = 1 then Some (SerialException ''write failed'') else None)\<rparr>"

definition stopped_world :: "nat \<Rightarrow> world" where
  "stopped_world k = calm_world\<lparr>is_running_at := (\<lambda>i. i < k)\<rparr>"

definition worker :: "(string \<times> string option) list \<Rightarrow> bool \<Rightarrow> real \<Rightarrow> real \<Rightarrow> serial_worker" where
  "worker cs nl txd cd = \<lparr>commands = cs, append_newline = nl, tx_delay = txd, command_delay = cd\<rparr>"

section \<open>Properties of the codec functions\<close>

lemma char_of_byte_of_char [simp]: "char_of_byte (byte_of_char c) = c"
  by (simp add: char_of_byte_def byte_of_char_def unat_of_nat)

lemma unat_byte_of_char: "unat (byte_of_char c) = of_char c"
  by (simp add: byte_of_char_def unat_of_nat)

lemma byte_of_char_less_128 [simp]: "(byte_of_char c < 128) = is_ascii c"
  by (simp add: word_less_nat_alt unat_byte_of_char is_ascii_def)

lemma byte_of_char_eq_iff [simp]: "(byte_of_char c = byte_of_char d) = (c = d)"
  by (metis char_of_byte_of_char)

lemma is_ascii_char_of_byte: "b < 128 \<Longrightarrow> is_ascii (char_of_byte b)"
  by (simp add: is_ascii_def char_of_byte_def word_less_nat_alt)

lemma byte_of_char_of_byte [simp]: "byte_of_char (char_of_byte b) = b"
proof -
  have "unat b < 256" using unsigned_less [of b, where 'a = nat] by simp
  then show ?thesis by (simp add: byte_of_char_def char_of_byte_def)
qed

lemma is_ascii_simps [simp]: "is_ascii CR" "is_ascii LF" "is_ascii SP"
  by (simp_all add: is_ascii_def CR_def LF_def SP_def)

lemma py_isspace_simps [simp]: "py_isspace CR" "py_isspace LF" "py_isspace SP"
  by (simp_all add: py_isspace_def CR_def LF_def SP_def)

lemma set_py_strip: "set (py_strip s) \<subseteq> set s"
proof -
  have "set (py_strip s) \<subseteq> set (dropWhile py_isspace s)"
    unfolding py_strip_def using set_dropWhileD by fastforce
  also have "\<dots> \<subseteq> set s" using set_dropWhileD by fastforce
  finally show ?thesis .
qed

section \<open>Properties of the simulated chiller\<close>

lemma set_remainder: "remainder s = Some r \<Longrightarrow> set r \<subseteq> set s"
  by (auto simp: remainder_def split: if_splits dest!: list.set_sel(2) [rotated] set_dropWhileD)

lemma py_split1_remainder:
  "py_split1 s = (case remainder s of None \<Rightarrow> [s] | Some r \<Rightarrow> [takeWhile (\<lambda>c. c \<noteq> SP) s, r])"
  by (simp add: py_split1_def remainder_def)

lemma response_for_classified: "response_for data = classified data"
  by (simp add: response_for_def classified_def py_split1_remainder Let_def split: option.splits)

lemma RESPONSES_ascii: "RESPONSES k = Some r \<Longrightarrow> list_all is_ascii r"
  by (auto simp: RESPONSES_def is_ascii_def split: if_splits)

lemma classified_ascii:
  assumes "list_all is_ascii line"
  shows "list_all is_ascii (classified line)"
proof -
  have lit: "list_all is_ascii ''Setpoint updated to ''" "list_all is_ascii ''Missing parameter for out_sp_00''"
    "list_all is_ascii ''Chiller turned on''" "list_all is_ascii ''Chiller turned off''"
    "list_all is_ascii ''Missing parameter for out_mode_05''" "list_all is_ascii ''OK''"
    by (simp_all add: is_ascii_def)
  have rem: "list_all is_ascii r" if "remainder line = Some r" for r
    using set_remainder [OF that] assms by (auto simp: list_all_iff)
  show ?thesis
  proof (cases "remainder line")
    case None
    then show ?thesis
      using lit RESPONSES_ascii [of line] by (simp add: classified_def split: option.splits)
  next
    case (Some r)
    then show ?thesis
      using lit rem [OF Some] RESPONSES_ascii [of line] by (simp add: classified_def split: option.splits)
  qed
qed

text \<open>
  C3. Whenever the chiller has read bytes that decode to a text whose stripped form \<open>line\<close> is
  not empty, it sleeps and then writes the classification of \<open>line\<close> followed by CR LF: for a
  line starting with \<open>out_sp_00\<close> the text \<open>Setpoint updated to\<close> and the remainder after the
  first space, or the missing-parameter text when there is no remainder; otherwise, for a line
  starting with \<open>out_mode_05\<close>, \<open>Chiller turned on\<close> for the remainder \<open>1\<close>,
  \<open>Chiller turned off\<close> for any other remainder, the missing-parameter text when there is none;
  otherwise the table's entry for the whole line, or \<open>OK\<close>.
\<close>

theorem chiller_response_classified:
  assumes "decode_ascii raw = Inr s" and "py_strip s = line" and "line \<noteq> []"
  shows "handle_read raw = Inr [ChSleep, ChWrite (map byte_of_char (classified line @ [CR, LF]))]"
proof -
  have "list_all is_ascii s"
    using assms(1) by (auto simp: decode_ascii_def list_all_iff is_ascii_char_of_byte split: if_splits)
  then have "list_all is_ascii line"
    using set_py_strip [of s] assms(2) by (auto simp: list_all_iff)
  then have "list_all is_ascii (classified line @ [CR, LF])"
    using classified_ascii by simp
  then have "encode_ascii (response_for line @ [CR, LF]) = Inr (map byte_of_char (classified line @ [CR, LF]))"
    by (simp add: encode_ascii_def response_for_classified)
  then show ?thesis
    using assms by (simp add: handle_read_def)
qed



theorem chiller_response_classified_witness:
  "decode_ascii (map byte_of_char (''out_sp_00 5.00'' @ [CR])) = Inr (''out_sp_00 5.00'' @ [CR]) \<and>
   py_strip (''out_sp_00 5.00'' @ [CR]) = ''out_sp_00 5.00'' \<and> ''out_sp_00 5.00'' \<noteq> [] \<and>
   handle_read (map byte_of_char (''out_sp_00 5.00'' @ [CR])) =
     Inr [ChSleep, ChWrite (map byte_of_char (''Setpoint updated to 5.00'' @ [CR, LF]))]"
proof -
  have d: "decode_ascii (map byte_of_char (''out_sp_00 5.00'' @ [CR])) = Inr (''out_sp_00 5.00'' @ [CR])"
    by (simp add: decode_ascii_def is_ascii_def CR_def)
  have s: "py_strip (''out_sp_00 5.00'' @ [CR]) = ''out_sp_00 5.00''"
    by (simp add: py_strip_def py_isspace_def CR_def)
  have n: "''out_sp_00 5.00'' \<noteq> []"
    by simp
  have c: "classified ''out_sp_00 5.00'' = ''Setpoint updated to 5.00''"
    by (simp add: classified_def py_startswith_def remainder_def SP_def)
  show ?thesis
    using chiller_response_classified [OF d s n] d s by (simp add: c)
qed

text \<open>
  C4. For each of the nine commands of the table, the chiller that receives the command
  followed by a carriage return writes the table's response followed by CR LF.
\<close>

theorem chiller_table_responses:
  "simulate_chiller 1 (map byte_of_char (''VERSION'' @ [CR])) =
     ([ChSleep, ChWrite (map byte_of_char (''JULABO_V3.0'' @ [CR, LF]))], None) \<and>
   simulate_chiller 1 (map byte_of_char (''status'' @ [CR])) =
     ([ChSleep, ChWrite (map byte_of_char (''03 REMOTE START'' @ [CR, LF]))], None) \<and>
   simulate_chiller 1 (map byte_of_char (''in_mode_05'' @ [CR])) =
     ([ChSleep, ChWrite (map byte_of_char (''1'' @ [CR, LF]))], None) \<and>
   simulate_chiller 1 (map byte_of_char (''in_mode_04'' @ [CR])) =
     ([ChSleep, ChWrite (map byte_of_char (''0'' @ [CR, LF]))], None) \<and>
   simulate_chiller 1 (map byte_of_char (''in_sp_06'' @ [CR])) =
     ([ChSleep, ChWrite (map byte_of_char (''14.55'' @ [CR, LF]))], None) \<and>
   simulate_chiller 1 (map byte_of_char (''in_sp_00'' @ [CR])) =
     ([ChSleep, ChWrite (map byte_of_char (''2.00'' @ [CR, LF]))], None) \<and>
   simulate_chiller 1 (map byte_of_char (''in_pv_00'' @ [CR])) =
     ([ChSleep, ChWrite (map byte_of_char (''14.55'' @ [CR, LF]))], None) \<and>
   simulate_chiller 1 (map byte_of_char (''in_pv_02'' @ [CR])) =
     ([ChSleep, ChWrite (map byte_of_char (''---.--'' @ [CR, LF]))], None) \<and>
   simulate_chiller 1 (map byte_of_char (''in_pv_01'' @ [CR])) =
     ([ChSleep, ChWrite (map byte_of_char (''-100'' @ [CR, LF]))], None)"
  by (intro conjI; code_simp)

lemma CR_neq_LF [simp]: "CR \<noteq> LF" "LF \<noteq> CR"
  by (simp_all add: CR_def LF_def)

lemma lf_after_cr_refl: "lf_after_cr x x"
  by (induction x) (auto intro: lf_after_cr.intros)

lemma lf_after_cr_command:
  "lf_after_cr x y \<Longrightarrow> lf_after_cr (c @ byte_of_char CR # byte_of_char LF # x) (c @ byte_of_char CR # y)"
  by (induction c) (auto intro: lf_after_cr.intros)

lemma lf_after_cr_streams: "lf_after_cr (crlf_stream cs) (cr_stream cs)"
  by (induction cs) (auto simp: crlf_stream_def cr_stream_def intro: lf_after_cr.intros lf_after_cr_command)

lemma read_until_CR_related:
  assumes "lf_after_cr x y"
  shows "\<exists>l r1 r2. read_until_CR x = (l, r1) \<and> read_until_CR y = (l, r2) \<and>
           (lf_after_cr r1 r2 \<or> (\<exists>r. r1 = byte_of_char LF # r \<and> lf_after_cr r r2))"
  using assms
proof (induction rule: lf_after_cr.induct)
  case lf_nil
  then show ?case by (auto intro: lf_after_cr.intros)
next
  case (lf_keep x y b)
  then show ?case by (cases "b = byte_of_char CR") auto
next
  case (lf_extra x y)
  then show ?case by auto
qed

lemma decode_ascii_LF:
  "decode_ascii (byte_of_char LF # l) = (case decode_ascii l of Inl e \<Rightarrow> Inl e | Inr s \<Rightarrow> Inr (LF # s))"
  by (simp add: decode_ascii_def)

lemma py_strip_LF [simp]: "py_strip (LF # s) = py_strip s"
  by (simp add: py_strip_def)

lemma handle_read_LF: "handle_read (byte_of_char LF # l) = handle_read l"
  by (simp add: handle_read_def decode_ascii_LF split: sum.splits)

lemma read_until_CR_LF:
  "read_until_CR (byte_of_char LF # x) = (case read_until_CR x of (l, r) \<Rightarrow> (byte_of_char LF # l, r))"
  by simp

lemma simulate_chiller_related:
  "lf_after_cr x y \<Longrightarrow>
     simulate_chiller n x = simulate_chiller n y \<and>
     simulate_chiller n (byte_of_char LF # x) = simulate_chiller n y"
proof (induction n arbitrary: x y)
  case 0
  then show ?case by simp
next
  case (Suc n)
  from read_until_CR_related [OF Suc.prems] obtain l r1 r2 where
    rx: "read_until_CR x = (l, r1)" and ry: "read_until_CR y = (l, r2)" and
    rel: "lf_after_cr r1 r2 \<or> (\<exists>r. r1 = byte_of_char LF # r \<and> lf_after_cr r r2)"
    by blast
  from rel Suc.IH have rest: "simulate_chiller n r1 = simulate_chiller n r2"
    by blast
  have rx': "read_until_CR (byte_of_char LF # x) = (byte_of_char LF # l, r1)"
    using rx by (simp add: read_until_CR_LF del: read_until_CR.simps)
  have "simulate_chiller (Suc n) x = simulate_chiller (Suc n) y"
    by (simp add: rx ry rest del: read_until_CR.simps split: sum.splits)
  moreover have "simulate_chiller (Suc n) (byte_of_char LF # x) = simulate_chiller (Suc n) y"
    by (simp add: rx' ry rest handle_read_LF del: read_until_CR.simps split: sum.splits)
  ultimately show ?case by simp
qed

text \<open>
  C10. For every sequence of commands and every number of passes of the chiller's loop, the
  chiller does on the commands terminated by CR LF exactly what it does on the same commands
  terminated by CR alone: the line feed left in the stream opens the next read and is
  stripped before the line is classified.
\<close>

theorem chiller_tolerates_crlf:
  "simulate_chiller n (crlf_stream cs) = simulate_chiller n (cr_stream cs)"
  using simulate_chiller_related [OF lf_after_cr_streams] by blast

section \<open>Properties of the serial worker\<close>

subsection \<open>Sending a frame\<close>

lemma encode_ascii_single: "is_ascii ch \<Longrightarrow> encode_ascii [ch] = Inr [byte_of_char ch]"
  by (simp add: encode_ascii_def)

lemma write_chars_ok:
  assumes "list_all is_ascii s" and "\<forall>j. write_exc env i j = None" and "\<forall>j. flush_exc env i j = None"
    and "sleep_exc env d = None"
  shows "write_chars env i d j s = (concat (map (\<lambda>ch. [SerWrite [byte_of_char ch], SerFlush, Sleep d]) s), None)"
  using assms by (induction s arbitrary: j) (simp_all add: encode_ascii_single)

lemma transmit_ok:
  assumes "list_all is_ascii s" and "\<forall>j. write_exc env i j = None" and "\<forall>j. flush_exc env i j = None"
    and "0 < tx_delay w \<longrightarrow> sleep_exc env (tx_delay w) = None"
  shows "transmit w env i s = (wire_actions w s, None)"
proof (cases "tx_delay w > 0")
  case True
  then show ?thesis
    using write_chars_ok [OF assms(1,2,3), of "tx_delay w" 0] assms(4)
    by (simp add: transmit_def wire_actions_def)
next
  case False
  then show ?thesis
    using assms by (simp add: transmit_def wire_actions_def encode_ascii_def)
qed

lemma written_append [simp]: "written (xs @ ys) = written xs @ written ys"
  by (induction xs rule: written.induct) simp_all

lemma written_bytewise [simp]:
  "written (concat (map (\<lambda>ch. [SerWrite [byte_of_char ch], SerFlush, Sleep d]) s)) = map byte_of_char s"
  by (induction s) simp_all

lemma written_wire_actions: "written (wire_actions w s) = map byte_of_char s"
  by (simp add: wire_actions_def)

text \<open>
  C5. For every command and every worker, the text of the frame is the name, followed by a
  space and the parameter when the parameter is neither absent nor empty, followed by CR LF
  when \<open>append_newline\<close> is set and by CR otherwise; its encoding is the bytes of that text, or
  the codec error when the text is not ASCII. The frame is a function of the command and of
  \<open>append_newline\<close> alone: it performs no action.
\<close>

theorem frame_encoding:
  "full_command_of (append_newline w) name param = frame_text (append_newline w) name param \<and>
   encode_ascii (full_command_of (append_newline w) name param) =
     (if list_all is_ascii (frame_text (append_newline w) name param)
      then Inr (map byte_of_char (frame_text (append_newline w) name param))
      else Inl UnicodeEncodeError)"
proof -
  have "full_command_of (append_newline w) name param = frame_text (append_newline w) name param"
    by (cases param) (simp_all add: full_command_of_def frame_text_def SP_def)
  then show ?thesis
    by (simp add: encode_ascii_def)
qed

text \<open>
  C9, as amended. For every frame of ASCII characters and every positive \<open>tx_delay\<close> on which
  \<open>time.sleep\<close> returns, on a port where no write and no flush of the pass raises, the bytes
  written with that \<open>tx_delay\<close> and the bytes written without one are the same: the bytes of
  the frame, in order, and neither way raises.
\<close>

theorem transmit_modes_same_bytes:
  assumes "list_all is_ascii frame" and "\<forall>j. write_exc env i j = None" and "\<forall>j. flush_exc env i j = None"
    and "tx_delay w > 0" and "sleep_exc env (tx_delay w) = None" and "tx_delay w' \<le> 0"
  shows "written (fst (transmit w env i frame)) = map byte_of_char frame \<and>
         written (fst (transmit w' env i frame)) = map byte_of_char frame \<and>
         snd (transmit w env i frame) = None \<and> snd (transmit w' env i frame) = None"
proof -
  have "transmit w env i frame = (wire_actions w frame, None)"
    using assms(1,2,3,5) by (intro transmit_ok) simp_all
  moreover have "transmit w' env i frame = (wire_actions w' frame, None)"
    using assms(1,2,3,6) by (intro transmit_ok) simp_all
  ultimately show ?thesis
    by (simp add: written_wire_actions)
qed

theorem transmit_modes_same_bytes_witness:
  "written (fst (transmit (worker [] False (1/100) (3/50)) calm_world 0 (''VERSION'' @ [CR]))) =
     map byte_of_char (''VERSION'' @ [CR]) \<and>
   written (fst (transmit (worker [] False 0 (3/50)) calm_world 0 (''VERSION'' @ [CR]))) =
     map byte_of_char (''VERSION'' @ [CR])"
proof -
  have 1: "list_all is_ascii (''VERSION'' @ [CR])"
    by (simp add: is_ascii_def CR_def)
  have 2: "\<forall>j. write_exc calm_world 0 j = None" "\<forall>j. flush_exc calm_world 0 j = None"
    by (simp_all add: calm_world_def)
  have 3: "tx_delay (worker [] False (1/100) (3/50)) > 0"
    by (simp add: worker_def)
  have 4: "sleep_exc calm_world (tx_delay (worker [] False (1/100) (3/50))) = None"
    by (simp add: worker_def calm_world_def time_sleep_def)
  have 5: "tx_delay (worker [] False 0 (3/50)) \<le> 0"
    by (simp add: worker_def)
  show ?thesis
    using transmit_modes_same_bytes [OF 1 2 3 4 5] by simp
qed

text \<open>
  C9 as stated fails. With a character outside ASCII in the frame, the byte-at-a-time path has
  written the bytes before it when the codec raises, and the single write has written nothing.
  When the second call of \<open>write\<close> fails, the byte-at-a-time path has written one byte and
  the single write the whole frame. With a \<open>tx_delay\<close> of \<open>10 ^ 10\<close> seconds, \<open>time.sleep\<close>
  raises after the first byte, and a worker without \<open>tx_delay\<close> writes the whole frame.
\<close>

theorem transmit_modes_counterexample:
  "written (fst (transmit (worker [] False (1/100) (3/50)) calm_world 0 [CHR ''a'', CHR 0xE9, CR])) =
     [byte_of_char CHR ''a''] \<and>
   written (fst (transmit (worker [] False 0 (3/50)) calm_world 0 [CHR ''a'', CHR 0xE9, CR])) = [] \<and>
   written (fst (transmit (worker [] False (1/100) (3/50)) second_write_fails_world 0 (''ab'' @ [CR]))) =
     [byte_of_char CHR ''a''] \<and>
   written (fst (transmit (worker [] False 0 (3/50)) second_write_fails_world 0 (''ab'' @ [CR]))) =
     map byte_of_char (''ab'' @ [CR]) \<and>
   transmit (worker [] False (10 ^ 10) (3/50)) calm_world 0 (''ab'' @ [CR]) =
     ([SerWrite [byte_of_char CHR ''a''], SerFlush], Some OverflowError) \<and>
   transmit (worker [] False 0 (3/50)) calm_world 0 (''ab'' @ [CR]) =
     ([SerWrite (map byte_of_char (''ab'' @ [CR])), SerFlush], None)"
  by (intro conjI; code_simp)

subsection \<open>The loop over the commands\<close>

lemma run_loop_step:
  assumes "is_running_at env i" and "exchange_ok w env i c raw"
  shows "run_loop w env i (c # rest) =
           (exchange w c raw @ fst (run_loop w env (Suc i) rest), snd (run_loop w env (Suc i) rest))"
proof -
  obtain cmd param where c: "c = (cmd, param)" by (cases c)
  have tx: "transmit w env i (full_command_of (append_newline w) cmd param) =
              (wire_actions w (full_command_of (append_newline w) cmd param), None)"
    using assms(2) by (intro transmit_ok) (simp_all add: exchange_ok_def c)
  have rd: "readline_result env i = Inr raw" and sl: "sleep_exc env (command_delay w) = None"
    using assms(2) by (simp_all add: exchange_ok_def)
  show ?thesis
    using assms(1) by (simp add: c tx rd sl exchange_def sending_def received_def case_prod_beta Let_def)
qed

lemma run_loop_prefix:
  assumes "length raws = k" and "k \<le> length cs"
    and "\<forall>j<k. is_running_at env (i + j) \<and> exchange_ok w env (i + j) (cs ! j) (raws ! j)"
    and "k = length cs \<or> \<not> is_running_at env (i + k)"
  shows "run_loop w env i cs = (concat (map2 (exchange w) (take k cs) raws), None)"
  using assms
proof (induction cs arbitrary: i k raws)
  case Nil
  then show ?case by simp
next
  case (Cons c cs)
  show ?case
  proof (cases k)
    case 0
    then show ?thesis using Cons.prems by (cases c) simp
  next
    case (Suc k')
    then obtain raw raws' where raws: "raws = raw # raws'" and len: "length raws' = k'"
      using Cons.prems(1) by (cases raws) auto
    have first: "is_running_at env i" "exchange_ok w env i c raw"
      using Cons.prems(3) Suc raws by force+
    have rest: "\<forall>j<k'. is_running_at env (Suc i + j) \<and> exchange_ok w env (Suc i + j) (cs ! j) (raws' ! j)"
      using Cons.prems(3) Suc raws by force
    have fin: "k' = length cs \<or> \<not> is_running_at env (Suc i + k')"
      using Cons.prems(4) Suc by simp
    have "run_loop w env (Suc i) cs = (concat (map2 (exchange w) (take k' cs) raws'), None)"
      using Cons.IH [OF len _ rest fin] Cons.prems(2) Suc by simp
    then show ?thesis
      using run_loop_step [OF first, of cs] Suc raws by simp
  qed
qed

lemma signals_Nil [simp]: "signals [] = []"
  by (simp add: signals_def)

lemma signals_Cons [simp]: "signals (a # acts) = (if is_signal a then a # signals acts else signals acts)"
  by (simp add: signals_def)

lemma signals_append [simp]: "signals (xs @ ys) = signals xs @ signals ys"
  by (simp add: signals_def)

lemma signals_bytewise [simp]:
  "signals (concat (map (\<lambda>ch. [SerWrite [byte_of_char ch], SerFlush, Sleep d]) s)) = []"
  by (induction s) simp_all

lemma signals_wire_actions [simp]: "signals (wire_actions w s) = []"
  by (simp add: wire_actions_def)

lemma signals_exchange [simp]: "signals (exchange w c raw) = [sending w c, received raw]"
  by (simp add: exchange_def sending_def received_def)

lemma signals_exchanges:
  "signals (concat (map2 (exchange w) cs raws)) = concat (map2 (\<lambda>c raw. [sending w c, received raw]) cs raws)"
  by (induction cs raws rule: list_induct2') simp_all

lemma run_ok:
  assumes "open_exc env = None" and "length raws = k" and "k \<le> length (commands w)"
    and "\<forall>i<k. is_running_at env i \<and> exchange_ok w env i (commands w ! i) (raws ! i)"
    and "k = length (commands w) \<or> \<not> is_running_at env k"
  shows "run w env = SerOpen # concat (map2 (exchange w) (take k (commands w)) raws) @ [SerClose, Finished]"
proof -
  have "run_loop w env 0 (commands w) = (concat (map2 (exchange w) (take k (commands w)) raws), None)"
    using assms by (intro run_loop_prefix) simp_all
  then show ?thesis
    using assms(1) by (simp add: run_def)
qed

lemma transmit_commands_update [simp]:
  "transmit (w\<lparr>commands := cs'\<rparr>) env i s = transmit w env i s"
  by (simp add: transmit_def)

lemma run_loop_commands_update [simp]:
  "run_loop (w\<lparr>commands := cs'\<rparr>) env i cs = run_loop w env i cs"
  by (induction cs arbitrary: i) (auto simp: Let_def split: prod.splits option.splits sum.splits)

lemma run_loop_rest_cong:
  "run_loop w env (Suc i) r1 = run_loop w env (Suc i) r2 \<Longrightarrow>
     run_loop w env i (c # r1) = run_loop w env i (c # r2)"
  by (cases c) (simp add: Let_def split: prod.splits option.splits sum.splits)

lemma run_loop_stopped:
  "\<not> is_running_at env (i + k) \<Longrightarrow> k \<le> length cs \<Longrightarrow> run_loop w env i cs = run_loop w env i (take k cs)"
proof (induction cs arbitrary: i k)
  case Nil
  then show ?case by simp
next
  case (Cons c cs)
  show ?case
  proof (cases k)
    case 0
    then show ?thesis using Cons.prems by (cases c) simp
  next
    case (Suc k')
    have "run_loop w env (Suc i) cs = run_loop w env (Suc i) (take k' cs)"
      using Cons.IH [of "Suc i" k'] Cons.prems Suc by simp
    then show ?thesis
      using run_loop_rest_cong [of w env i cs "take k' cs" c] by (simp add: Suc del: run_loop.simps)
  qed
qed

text \<open>When the port opened and no exception left the loop, whether the loop ran to its end
  or met \<open>stop\<close>, the run ends with the closing of the port and then \<open>finished\<close>.\<close>

lemma run_closes_port:
  assumes "open_exc env = None" and "run_loop w env 0 (commands w) = (acts, None)"
  shows "run w env = SerOpen # acts @ [SerClose, Finished]"
  using assms by (simp add: run_def)

text \<open>
  C1. The claim fails on the paths that leave the loop by an exception. With one command and a
  port whose write raises, or whose read raises, the worker emits the error and \<open>finished\<close>
  and never closes the port it opened: \<open>ser.close()\<close> stands inside the \<open>try\<close>, after the loop.
\<close>

theorem run_failure_skips_close:
  "run (worker [(''VERSION'', None)] False 0 (3/50)) broken_write_world =
     [SerOpen, Update_signal ''Sending: VERSION'',
      Update_error (SerialException ''write failed''), Finished] \<and>
   run (worker [(''VERSION'', None)] False 0 (3/50)) broken_read_world =
     [SerOpen, Update_signal ''Sending: VERSION'',
      SerWrite (map byte_of_char (''VERSION'' @ [CR])), SerFlush, Sleep (3/50),
      Update_error (SerialException ''read failed''), Finished]"
  by (intro conjI; code_simp)

text \<open>
  C2, as amended. When the port opens, \<open>stop\<close> is never seen, every frame is ASCII text, no
  write, flush or read raises, and \<open>time.sleep\<close> returns on the delays it is given (they are
  not negative and not too large for the clock), the signals of a run over \<open>N\<close> commands are
  exactly the \<open>N\<close> pairs of \<open>Sending\<close> and \<open>Received\<close>, the pair of each command in the order
  of the list, followed by \<open>finished\<close> once, with no error.
\<close>

theorem session_events_in_order:
  assumes "open_exc env = None"
    and "length raws = length (commands w)"
    and "\<forall>i<length (commands w). is_running_at env i \<and> exchange_ok w env i (commands w ! i) (raws ! i)"
  shows "signals (run w env) =
           concat (map2 (\<lambda>c raw. [sending w c, received raw]) (commands w) raws) @ [Finished]"
proof -
  have "run w env = SerOpen # concat (map2 (exchange w) (take (length (commands w)) (commands w)) raws) @ [SerClose, Finished]"
    using assms by (intro run_ok) simp_all
  then show ?thesis
    by (simp add: signals_exchanges)
qed

theorem session_events_in_order_witness:
  "signals (run (worker [(''VERSION'', None), (''out_sp_00'', Some ''5.00'')] False 0 (3/50)) calm_world) =
     [Update_signal ''Sending: VERSION'', Update_signal (''Received: No response'' @ [LF]),
      Update_signal ''Sending: out_sp_00 5.00'', Update_signal (''Received: No response'' @ [LF]), Finished]"
proof -
  let ?w = "worker [(''VERSION'', None), (''out_sp_00'', Some ''5.00'')] False 0 (3/50)"
  have 1: "open_exc calm_world = None"
    by (simp add: calm_world_def)
  have 2: "length [[], [] :: byte list] = length (commands ?w)"
    by (simp add: worker_def)
  have 3: "\<forall>i<length (commands ?w). is_running_at calm_world i \<and>
             exchange_ok ?w calm_world i (commands ?w ! i) ([[], []] ! i)"
    by (simp add: worker_def calm_world_def exchange_ok_def full_command_of_def is_ascii_def
          time_sleep_def CR_def SP_def less_Suc_eq nth_Cons')
  show ?thesis
    using session_events_in_order [OF 1 2 3]
    by (simp add: worker_def sending_def received_def response_text_def full_command_of_def
          py_strip_def py_isspace_def CR_def SP_def)
qed

text \<open>
  C2 as stated fails. On a port where every call succeeds and \<open>stop\<close> is never called, a
  parameter outside ASCII makes the codec raise, and a \<open>command_delay\<close> that is negative or
  is \<open>10 ^ 10\<close> seconds, or a \<open>tx_delay\<close> of \<open>10 ^ 10\<close> seconds, makes \<open>time.sleep\<close> raise: the
  run emits \<open>Sending\<close>, then the error, then \<open>finished\<close>, and no \<open>Received\<close>.
\<close>

theorem session_events_counterexample:
  "signals (run (worker [(''out_sp_00'', Some [CHR 0xE9])] False 0 (3/50)) calm_world) =
     [Update_signal (''Sending: out_sp_00 '' @ [CHR 0xE9]), Update_error UnicodeEncodeError, Finished] \<and>
   signals (run (worker [(''VERSION'', None)] False 0 (-1)) calm_world) =
     [Update_signal ''Sending: VERSION'', Update_error ValueError, Finished] \<and>
   signals (run (worker [(''VERSION'', None)] False 0 (10 ^ 10)) calm_world) =
     [Update_signal ''Sending: VERSION'', Update_error OverflowError, Finished] \<and>
   signals (run (worker [(''VERSION'', None)] False (10 ^ 10) (3/50)) calm_world) =
     [Update_signal ''Sending: VERSION'', Update_error OverflowError, Finished]"
  by (intro conjI; code_simp)

text \<open>
  C6. In every pass of the loop that reaches its read (the flag is set, sending the frame
  raised nothing and \<open>time.sleep\<close> returned on \<open>command_delay\<close>), if the read returns no bytes
  then the pass emits \<open>Received: No response\<close> and the loop goes on with the next pass on the
  remaining commands: the outcome of the loop is the outcome of that next pass, with the
  actions of this exchange in front.
\<close>

theorem no_response_continues:
  assumes "is_running_at env i"
    and "transmit w env i (full_command_of (append_newline w) cmd param) = (tx, None)"
    and "sleep_exc env (command_delay w) = None"
    and "readline_result env i = Inr []"
  shows "run_loop w env i ((cmd, param) # rest) =
           (sending w (cmd, param) # tx @
            [Sleep (command_delay w), SerReadline [], Update_signal (''Received: No response'' @ [LF])] @
            fst (run_loop w env (Suc i) rest),
            snd (run_loop w env (Suc i) rest))"
  using assms by (simp add: sending_def response_text_def case_prod_beta Let_def)

theorem no_response_continues_witness:
  "run_loop (worker [] False 0 (3/50)) calm_world 0 [(''VERSION'', None), (''status'', None)] =
     ([Update_signal ''Sending: VERSION'', SerWrite (map byte_of_char (''VERSION'' @ [CR])), SerFlush,
       Sleep (3/50), SerReadline [], Update_signal (''Received: No response'' @ [LF]),
       Update_signal ''Sending: status'', SerWrite (map byte_of_char (''status'' @ [CR])), SerFlush,
       Sleep (3/50), SerReadline [], Update_signal (''Received: No response'' @ [LF])], None)"
proof -
  let ?w = "worker [] False 0 (3/50)"
  have 1: "is_running_at calm_world 0"
    by (simp add: calm_world_def)
  have 2: "transmit ?w calm_world 0 (full_command_of (append_newline ?w) ''VERSION'' None) =
             ([SerWrite (map byte_of_char (''VERSION'' @ [CR])), SerFlush], None)"
    by (simp add: transmit_def worker_def calm_world_def full_command_of_def encode_ascii_def is_ascii_def CR_def)
  have 3: "sleep_exc calm_world (command_delay ?w) = None"
    by (simp add: worker_def calm_world_def time_sleep_def)
  have 4: "readline_result calm_world 0 = Inr []"
    by (simp add: calm_world_def)
  have 5: "run_loop ?w calm_world (Suc 0) [(''status'', None)] =
     ([Update_signal ''Sending: status'', SerWrite (map byte_of_char (''status'' @ [CR])), SerFlush,
       Sleep (3/50), SerReadline [], Update_signal (''Received: No response'' @ [LF])], None)"
    by code_simp
  have 6: "sending ?w (''VERSION'', None) = Update_signal ''Sending: VERSION''"
    by code_simp
  have 7: "command_delay ?w = 3/50"
    by (simp add: worker_def)
  show ?thesis
    using no_response_continues [OF 1 2 3 4, of "[(''status'', None)]"] by (simp add: 5 6 7 del: run_loop.simps)
qed

text \<open>
  C7. If \<open>stop\<close> is called while command \<open>k\<close> of more than \<open>k\<close> commands is in flight, so that
  the loop first sees it at the top of pass \<open>k\<close> (counted from 0), the run is the run of the
  first \<open>k\<close> commands alone, whatever the port does. When the port opened and these \<open>k\<close>
  exchanges meet no failure (of the codec, of the port or of \<open>time.sleep\<close>), the run is the
  \<open>k\<close> whole exchanges, each with its send, pause, read and \<open>Received\<close>, then the closing of
  the port, then \<open>finished\<close>, with no \<open>Sending\<close> for a later command. The flag is read at the
  top of a pass and nowhere else.
\<close>

theorem cancellation_between_commands:
  assumes "k < length (commands w)" and "\<not> is_running_at env k"
  shows "run w env = run (w\<lparr>commands := take k (commands w)\<rparr>) env \<and>
         (open_exc env = None \<and> length raws = k \<and>
          (\<forall>i<k. is_running_at env i \<and> exchange_ok w env i (commands w ! i) (raws ! i)) \<longrightarrow>
          run w env = SerOpen # concat (map2 (exchange w) (take k (commands w)) raws) @ [SerClose, Finished])"
proof
  have "run_loop w env 0 (commands w) = run_loop w env 0 (take k (commands w))"
    using assms by (intro run_loop_stopped) simp_all
  then show "run w env = run (w\<lparr>commands := take k (commands w)\<rparr>) env"
    by (simp add: run_def split: option.splits)
next
  show "open_exc env = None \<and> length raws = k \<and>
          (\<forall>i<k. is_running_at env i \<and> exchange_ok w env i (commands w ! i) (raws ! i)) \<longrightarrow>
          run w env = SerOpen # concat (map2 (exchange w) (take k (commands w)) raws) @ [SerClose, Finished]"
    using assms by (auto intro!: run_ok)
qed

theorem cancellation_between_commands_witness:
  "run (worker [(''VERSION'', None), (''status'', None), (''in_pv_00'', None)] False 0 (3/50)) (stopped_world 1) =
     [SerOpen, Update_signal ''Sending: VERSION'', SerWrite (map byte_of_char (''VERSION'' @ [CR])), SerFlush,
      Sleep (3/50), SerReadline [], Update_signal (''Received: No response'' @ [LF]), SerClose, Finished]"
proof -
  let ?w = "worker [(''VERSION'', None), (''status'', None), (''in_pv_00'', None)] False 0 (3/50)"
  have 1: "1 < length (commands ?w)"
    by (simp add: worker_def)
  have 2: "\<not> is_running_at (stopped_world 1) 1"
    by (simp add: stopped_world_def)
  have 3: "open_exc (stopped_world 1) = None \<and> length [[] :: byte list] = 1 \<and>
          (\<forall>i<1. is_running_at (stopped_world 1) i \<and>
                  exchange_ok ?w (stopped_world 1) i (commands ?w ! i) ([[]] ! i))"
    by (simp add: worker_def stopped_world_def calm_world_def exchange_ok_def full_command_of_def
          time_sleep_def is_ascii_def CR_def)
  have 4: "exchange ?w (''VERSION'', None) [] =
             [Update_signal ''Sending: VERSION'', SerWrite (map byte_of_char (''VERSION'' @ [CR])), SerFlush,
              Sleep (3/50), SerReadline [], Update_signal (''Received: No response'' @ [LF])]"
    by (simp add: exchange_def sending_def received_def wire_actions_def worker_def full_command_of_def
          response_text_def py_strip_def py_isspace_def CR_def)
  have 5: "take 1 (commands ?w) = [(''VERSION'', None)]"
    by (simp add: worker_def)
  from cancellation_between_commands [OF 1 2, of "[[]]"] 3
  have "run ?w (stopped_world 1) =
          SerOpen # concat (map2 (exchange ?w) (take 1 (commands ?w)) [[]]) @ [SerClose, Finished]"
    by blast
  then have "run ?w (stopped_world 1) =
          SerOpen # concat (map2 (exchange ?w) [(''VERSION'', None)] [[]]) @ [SerClose, Finished]"
    by (simp only: 5)
  then show ?thesis
    by (simp add: 4)
qed

subsection \<open>Encoding and decoding a frame\<close>

lemma decode_ascii_ignore_encode:
  "encode_ascii s = Inr bs \<Longrightarrow> decode_ascii_ignore bs = s"
  by (auto simp: encode_ascii_def decode_ascii_ignore_def list_all_iff filter_map o_def map_idI
      split: if_splits)

lemma py_strip_fixed_last:
  assumes "py_strip s = s" and "s \<noteq> []"
  shows "\<not> py_isspace (last s)"
proof -
  let ?t = "dropWhile py_isspace (rev (dropWhile py_isspace s))"
  have "rev ?t = s" using assms(1) by (simp add: py_strip_def)
  then have t: "?t = rev s" by (metis rev_rev_ident)
  then have "?t \<noteq> []" using assms(2) by simp
  then have "\<not> py_isspace (hd ?t)" by (rule hd_dropWhile)
  then show ?thesis using t assms(2) by (simp add: hd_rev)
qed

lemma py_rstrip_terminator:
  assumes "s = [] \<or> \<not> py_isspace (last s)"
  shows "py_rstrip (s @ [CR]) [CR, LF] = s" and "py_rstrip (s @ [CR, LF]) [CR, LF] = s"
proof -
  have "dropWhile (\<lambda>c. c \<in> set [CR, LF]) (rev s) = rev s"
  proof (cases s rule: rev_cases)
    case Nil
    then show ?thesis by simp
  next
    case (snoc ys y)
    then have "\<not> py_isspace y" using assms by simp
    then have "y \<noteq> CR" "y \<noteq> LF" by auto
    then show ?thesis using snoc by simp
  qed
  then show "py_rstrip (s @ [CR]) [CR, LF] = s" and "py_rstrip (s @ [CR, LF]) [CR, LF] = s"
    by (simp_all add: py_rstrip_def)
qed

lemma py_split1_no_space: "SP \<notin> set s \<Longrightarrow> py_split1 s = [s]"
  by (simp add: py_split1_def)

lemma first_space_parts:
  "SP \<notin> set a \<Longrightarrow>
     takeWhile (\<lambda>c. c \<noteq> SP) (a @ SP # b) = a \<and> dropWhile (\<lambda>c. c \<noteq> SP) (a @ SP # b) = SP # b"
  by (induction a) auto

lemma py_split1_first_space: "SP \<notin> set a \<Longrightarrow> py_split1 (a @ SP # b) = [a, b]"
  by (simp add: py_split1_def first_space_parts)

text \<open>
  C8. For every command whose name has no space, whose name and parameter have no leading or
  trailing whitespace, and for both terminators: decoding the encoded frame as the worker
  decodes a line, and splitting the result at the first space, gives back the name and the
  parameter; an absent or empty parameter comes back absent.
\<close>

theorem frame_round_trip:
  assumes "SP \<notin> set name" and "py_strip name = name" and "\<forall>p. param = Some p \<longrightarrow> py_strip p = p"
    and "encode_ascii (full_command_of nl name param) = Inr frame"
  shows "py_split1 (py_rstrip (decode_ascii_ignore frame) [CR, LF]) =
           (case param of Some p \<Rightarrow> (if p \<noteq> [] then [name, p] else [name]) | None \<Rightarrow> [name])"
proof -
  have dec: "decode_ascii_ignore frame = full_command_of nl name param"
    using assms(4) by (rule decode_ascii_ignore_encode)
  have nm: "name = [] \<or> \<not> py_isspace (last name)"
    using py_strip_fixed_last [OF assms(2)] by blast
  show ?thesis
  proof (cases "param \<noteq> None \<and> param \<noteq> Some []")
    case True
    then obtain p where p: "param = Some p" "p \<noteq> []" by auto
    then have "\<not> py_isspace (last p)"
      using assms(3) py_strip_fixed_last by blast
    then have "name @ SP # p = [] \<or> \<not> py_isspace (last (name @ SP # p))"
      using p by simp
    then have "py_rstrip (full_command_of nl name param) [CR, LF] = name @ SP # p"
      using py_rstrip_terminator [of "name @ SP # p"] p by (simp add: full_command_of_def Let_def)
    then show ?thesis
      using p assms(1) by (simp add: dec py_split1_first_space)
  next
    case False
    then have "py_rstrip (full_command_of nl name param) [CR, LF] = name"
      using py_rstrip_terminator [OF nm] by (auto simp: full_command_of_def Let_def)
    then show ?thesis
      using False assms(1) by (auto simp: dec py_split1_no_space split: option.splits)
  qed
qed

theorem frame_round_trip_witness:
  "py_split1 (py_rstrip (decode_ascii_ignore (map byte_of_char (''out_sp_00 5.00'' @ [CR, LF]))) [CR, LF]) =
     [''out_sp_00'', ''5.00'']"
proof -
  have 1: "SP \<notin> set ''out_sp_00''"
    by (simp add: SP_def)
  have 2: "py_strip ''out_sp_00'' = ''out_sp_00''"
    by (simp add: py_strip_def py_isspace_def)
  have 3: "\<forall>p. Some ''5.00'' = Some p \<longrightarrow> py_strip p = p"
    by (simp add: py_strip_def py_isspace_def)
  have 4: "encode_ascii (full_command_of True ''out_sp_00'' (Some ''5.00'')) =
             Inr (map byte_of_char (''out_sp_00 5.00'' @ [CR, LF]))"
    by (simp add: encode_ascii_def full_command_of_def is_ascii_def CR_def LF_def SP_def)
  show ?thesis
    using frame_round_trip [OF 1 2 3 4] by simp
qed

end
